theory Spec2Isabelle
  imports Complex_Main "HOL-Library.Sublist" "HOL-Library.AList"
begin

section \<open>Python values\<close>

text \<open>
  The script handles untyped values: what \<open>json.loads\<close> returns (None, booleans,
  numbers, strings, lists, and dicts with string keys), the timestamp of
  \<open>datetime.now()\<close>, and one tuple it builds itself. A dict is an association list in
  insertion order; a float is a real number (JSON has no NaN or infinity); a string is
  a list of characters, one for each character of the Python string.
\<close>

record datetime =
  year :: nat
  month :: nat
  day :: nat
  hour :: nat
  minute :: nat
  second :: nat
  microsecond :: nat

datatype pyval =
    PNone
  | PBool bool
  | PInt int
  | PFloat real
  | PStr string
  | PList "pyval list"
  | PDict "(string \<times> pyval) list"
  | PTuple "pyval list"
  | PDatetime datetime

type_synonym pydict = "(string \<times> pyval) list"

text \<open>The exceptions that can leave the script; none is caught anywhere.\<close>

datatype error =
    UnboundLocalError
  | IndexError
  | KeyError
  | TypeError
  | AttributeError
  | ValueError
  | JSONDecodeError
  | WebDriverException
  | RequestException

definition and_then :: "error + 'a \<Rightarrow> ('a \<Rightarrow> error + 'b) \<Rightarrow> error + 'b" where
  "and_then r f = (case r of Inl e \<Rightarrow> Inl e | Inr x \<Rightarrow> f x)"

text \<open>\<open>bool(v)\<close>, as \<open>if v:\<close> and \<open>if not v:\<close> take it.\<close>

fun truthy :: "pyval \<Rightarrow> bool" where
  "truthy PNone = False"
| "truthy (PBool b) = b"
| "truthy (PInt i) = (i \<noteq> 0)"
| "truthy (PFloat x) = (x \<noteq> 0)"
| "truthy (PStr s) = (s \<noteq> [])"
| "truthy (PList xs) = (xs \<noteq> [])"
| "truthy (PDict kvs) = (kvs \<noteq> [])"
| "truthy (PTuple xs) = (xs \<noteq> [])"
| "truthy (PDatetime d) = True"

text \<open>\<open>v.get(key)\<close>: only a dict has the method; a missing key gives None.\<close>

fun dict_get :: "pyval \<Rightarrow> string \<Rightarrow> error + pyval" where
  "dict_get (PDict kvs) key = (case map_of kvs key of None \<Rightarrow> Inr PNone | Some v \<Rightarrow> Inr v)"
| "dict_get _ key = Inl AttributeError"

text \<open>\<open>v[key]\<close> with a string key: KeyError on a dict without it, TypeError on the rest.\<close>

fun getitem :: "pyval \<Rightarrow> string \<Rightarrow> error + pyval" where
  "getitem (PDict kvs) key = (case map_of kvs key of None \<Rightarrow> Inl KeyError | Some v \<Rightarrow> Inr v)"
| "getitem _ key = Inl TypeError"

text \<open>\<open>isinstance(v, list)\<close>.\<close>

fun is_list :: "pyval \<Rightarrow> bool" where
  "is_list (PList xs) = True"
| "is_list _ = False"

text \<open>
  \<open>str(v)\<close>, which is also what an f-string puts in a hole: a string is itself, and
  every other value is its \<open>repr\<close>. The \<open>repr\<close> of Python is taken as a parameter.
\<close>

fun py_str :: "(pyval \<Rightarrow> string) \<Rightarrow> pyval \<Rightarrow> string" where
  "py_str rp (PStr s) = s"
| "py_str rp v = rp v"

text \<open>The values a \<open>for\<close> loop runs over; \<open>len\<close> accepts the same values.\<close>

fun py_iter :: "pyval \<Rightarrow> error + pyval list" where
  "py_iter (PList xs) = Inr xs"
| "py_iter (PTuple xs) = Inr xs"
| "py_iter (PStr s) = Inr (map (\<lambda>c. PStr [c]) s)"
| "py_iter (PDict kvs) = Inr (map (\<lambda>kv. PStr (fst kv)) kvs)"
| "py_iter _ = Inl TypeError"

definition py_len :: "pyval \<Rightarrow> error + nat" where
  "py_len v = and_then (py_iter v) (\<lambda>xs. Inr (length xs))"

section \<open>Strings\<close>

text \<open>\<open>s.find(sub)\<close>: the index of the first occurrence, or -1.\<close>

fun find_from :: "string \<Rightarrow> string \<Rightarrow> nat \<Rightarrow> int" where
  "find_from sub [] i = (if sub = [] then int i else - 1)"
| "find_from sub (c # s) i = (if prefix sub (c # s) then int i else find_from sub s (Suc i))"

definition str_find :: "string \<Rightarrow> string \<Rightarrow> int" where
  "str_find s sub = find_from sub s 0"

text \<open>
  \<open>s.replace(old, new)\<close>: every occurrence of \<open>old\<close>, found from the left and not
  overlapping, becomes \<open>new\<close>. With an empty \<open>old\<close>, \<open>new\<close> goes before every
  character and at the end.
\<close>

fun replace_scan :: "string \<Rightarrow> string \<Rightarrow> nat \<Rightarrow> string \<Rightarrow> string" where
  "replace_scan old new k [] = []"
| "replace_scan old new (Suc k) (c # s) = replace_scan old new k s"
| "replace_scan old new 0 (c # s) =
     (if prefix old (c # s) then new @ replace_scan old new (length old - 1) s
      else c # replace_scan old new 0 s)"

definition str_replace :: "string \<Rightarrow> string \<Rightarrow> string \<Rightarrow> string" where
  "str_replace s old new =
     (if old = [] then concat (map (\<lambda>c. new @ [c]) s) @ new
      else replace_scan old new 0 s)"

section \<open>The record normalizer\<close>

text \<open>
  \<open>_get_first_element(origin_dict_, key)\<close>: looks the key up and, when the value found
  is a list, returns \<open>str(key[0])\<close>.
\<close>

definition get_first_element :: "pyval \<Rightarrow> string \<Rightarrow> error + string" where
  "get_first_element origin_dict key =
     and_then (dict_get origin_dict key) (\<lambda>found_key.
       if is_list found_key
       then (case key of [] \<Rightarrow> Inl IndexError | c # _ \<Rightarrow> Inr [c])
       else Inr [])"

text \<open>
  What the script reaches outside itself, taken as given: the clock read once at the
  start, Python's \<open>repr\<close>, \<open>json.loads\<close>, the browser launched for each region (the
  n-th launch of the run), and \<open>requests.get(url).url\<close>, the address after redirects.
  Of a browser session the script uses two things: the performance log after loading
  a page, and the answer to \<open>Network.getResponseBody\<close>.
\<close>

record web_driver =
  get_log :: "string \<Rightarrow> error + pyval list"
  execute_cdp_cmd :: "pyval \<Rightarrow> error + pyval"

record world =
  datetime_now :: datetime
  py_repr :: "pyval \<Rightarrow> string"
  json_loads :: "pyval \<Rightarrow> error + pyval"
  create_web_driver :: "nat \<Rightarrow> error + web_driver"
  requests_get_url :: "string \<Rightarrow> error + string"

text \<open>\<open>d[key] = value\<close> on a dict: in place when the key is there, at the end otherwise.\<close>

definition dict_set :: "pydict \<Rightarrow> string \<Rightarrow> pyval \<Rightarrow> pydict" where
  "dict_set d key v = AList.update key v d"

text \<open>The assignments \<open>product_scraped[field] = product_info.get(key)\<close>, in order.\<close>

definition direct_fields :: "(string \<times> string) list" where
  "direct_fields =
     [(''id'', ''ID''), (''image_url'', ''image''), (''post_type'', ''post_type''),
      (''post_date'', ''post_date''), (''post_modified'', ''post_modified''),
      (''post_status'', ''post_status''), (''post_name'', ''post_name''),
      (''product_name'', ''post_name''), (''post_title'', ''post_title'')]"

fun copy_fields :: "pyval \<Rightarrow> (string \<times> string) list \<Rightarrow> pydict \<Rightarrow> error + pydict" where
  "copy_fields product_info [] product_scraped = Inr product_scraped"
| "copy_fields product_info ((field, key) # rest) product_scraped =
     and_then (dict_get product_info key) (\<lambda>v.
       copy_fields product_info rest (dict_set product_scraped field v))"

text \<open>
  The assignments \<open>product_scraped[field] = _get_first_element(meta, key)\<close> under
  \<open>if meta:\<close>, in order.
\<close>

definition meta_fields :: "(string \<times> string) list" where
  "meta_fields =
     [(''comunicacion_type'', ''comunicacion''), (''product_description'', ''descripcion''),
      (''sale_price'', ''precio_promocion_''), (''price'', ''precio_referente''),
      (''price_type'', ''tipo_de_precio_referente''), (''brand'', ''marca''),
      (''outstanding'', ''producto_destacado''), (''sap_ean_code'', ''sap-ean''),
      (''region'', ''region''), (''measure'', ''unidad_de_medida'')]"

fun copy_meta :: "pyval \<Rightarrow> (string \<times> string) list \<Rightarrow> pydict \<Rightarrow> error + pydict" where
  "copy_meta meta [] product_scraped = Inr product_scraped"
| "copy_meta meta ((field, key) # rest) product_scraped =
     and_then (get_first_element meta key) (\<lambda>s.
       copy_meta meta rest (dict_set product_scraped field (PStr s)))"

text \<open>\<open>product_scraped.get(key)\<close> on the dict under construction.\<close>

definition scraped_get :: "pydict \<Rightarrow> string \<Rightarrow> pyval" where
  "scraped_get d key = (case map_of d key of None \<Rightarrow> PNone | Some v \<Rightarrow> v)"

definition base_url :: string where
  "base_url = ''https://aratiendas.com/''"

text \<open>
  The string inside the category expression: the resolved address with the site, then
  \<open>{product_type}/\<close>, then \<open>/{product_name}/\<close> removed.
\<close>

definition category_string :: "string \<Rightarrow> string \<Rightarrow> string \<Rightarrow> string" where
  "category_string product_type product_name product_request =
     str_replace
       (str_replace (str_replace product_request base_url [])
          (product_type @ ''/'') [])
       (''/'' @ product_name @ ''/'') []"

text \<open>
  \<open>_get_product_info(product_info)\<close>. The category expression ends in a comma inside its
  parentheses, so the value stored is a tuple of one string.
\<close>

definition get_product_info :: "world \<Rightarrow> pyval \<Rightarrow> error + pydict" where
  "get_product_info w product_info =
     and_then (copy_fields product_info direct_fields []) (\<lambda>scraped1.
     and_then (dict_get product_info ''meta'') (\<lambda>meta.
     and_then (if truthy meta then copy_meta meta meta_fields scraped1 else Inr scraped1)
       (\<lambda>scraped2.
     let product_name = py_str (py_repr w) (scraped_get scraped2 ''product_name'');
         product_type = py_str (py_repr w) (scraped_get scraped2 ''post_type'');
         product_url = base_url @ product_type @ ''/'' @ product_name @ ''/''
     in and_then (requests_get_url w product_url) (\<lambda>resolved.
       let product_request = str_replace resolved ''%'' [];
           category = PTuple [PStr (category_string product_type product_name product_request)]
       in Inr (dict_set (dict_set scraped2 ''product_url'' (PStr product_url))
                 ''category'' category)))))"

section \<open>Tables\<close>

text \<open>
  A pandas table as far as the script uses one: the column labels, the row labels and
  the rows, each row with one cell for each column. A cell is \<open>None\<close> where the record
  had no such key (pandas shows NaN there). Column types are not modelled.
\<close>

record dataframe =
  df_columns :: "string list"
  df_index :: "nat list"
  df_rows :: "pyval option list list"

text \<open>The labels of a list in the order they first appear.\<close>

fun first_seen :: "string list \<Rightarrow> string list \<Rightarrow> string list" where
  "first_seen seen [] = []"
| "first_seen seen (k # ks) =
     (if k \<in> set seen then first_seen seen ks else k # first_seen (k # seen) ks)"

text \<open>\<open>pd.DataFrame(records)\<close> on a list of dicts.\<close>

definition DataFrame :: "pydict list \<Rightarrow> dataframe" where
  "DataFrame records =
     (let cols = first_seen [] (concat (map (map fst) records))
      in \<lparr>df_columns = cols,
          df_index = [0..<length records],
          df_rows = map (\<lambda>d. map (map_of d) cols) records\<rparr>)"

text \<open>A row laid out along other columns; a column the row's table lacks is missing.\<close>

definition reindex :: "string list \<Rightarrow> string list \<Rightarrow> pyval option list \<Rightarrow> pyval option list" where
  "reindex old new row =
     map (\<lambda>c. case map_of (zip old row) c of None \<Rightarrow> None | Some cell \<Rightarrow> cell) new"

text \<open>
  \<open>pd.concat(frames)\<close>: ValueError on an empty list; otherwise the tables one under
  the other, in the list's order, over all their columns.
\<close>

definition pd_concat :: "dataframe list \<Rightarrow> error + dataframe" where
  "pd_concat frames =
     (if frames = [] then Inl ValueError
      else
        let cols = first_seen [] (concat (map df_columns frames))
        in Inr \<lparr>df_columns = cols,
                df_index = concat (map df_index frames),
                df_rows = concat (map (\<lambda>f. map (reindex (df_columns f) cols) (df_rows f)) frames)\<rparr>)"

text \<open>\<open>df.reset_index(drop=True)\<close>.\<close>

definition reset_index :: "dataframe \<Rightarrow> dataframe" where
  "reset_index df = df\<lparr>df_index := [0..<length (df_rows df)]\<rparr>"

section \<open>Timestamps\<close>

definition digit :: "nat \<Rightarrow> char" where
  "digit n = ''0123456789'' ! (n mod 10)"

definition two_digits :: "nat \<Rightarrow> string" where
  "two_digits n = [digit (n div 10), digit n]"

text \<open>\<open>now.strftime("%Y%m%d")\<close> and \<open>now.strftime("%H:%M:%S")\<close>.\<close>

definition strftime_Ymd :: "datetime \<Rightarrow> string" where
  "strftime_Ymd d =
     [digit (year d div 1000), digit (year d div 100), digit (year d div 10), digit (year d)]
     @ two_digits (month d) @ two_digits (day d)"

definition strftime_HMS :: "datetime \<Rightarrow> string" where
  "strftime_HMS d =
     two_digits (hour d) @ '':'' @ two_digits (minute d) @ '':'' @ two_digits (second d)"

section \<open>The scraper\<close>

text \<open>A list comprehension or loop whose body can raise stops at the first exception.\<close>

fun map_result :: "('a \<Rightarrow> error + 'b) \<Rightarrow> 'a list \<Rightarrow> error + 'b list" where
  "map_result f [] = Inr []"
| "map_result f (x # xs) =
     and_then (f x) (\<lambda>y. and_then (map_result f xs) (\<lambda>ys. Inr (y # ys)))"

text \<open>\<open>_process_browser_log_entry(entry)\<close>.\<close>

definition process_browser_log_entry :: "world \<Rightarrow> pyval \<Rightarrow> error + pyval" where
  "process_browser_log_entry w entry =
     and_then (getitem entry ''message'') (\<lambda>message.
     and_then (json_loads w message) (\<lambda>decoded.
       getitem decoded ''message''))"

text \<open>
  The scan for the admin event: the number of the first event whose \<open>str\<close> has
  \<open>admin\<close> in it, if there is one.
\<close>

fun scan_events :: "(pyval \<Rightarrow> string) \<Rightarrow> pyval list \<Rightarrow> nat \<Rightarrow> nat option" where
  "scan_events rp [] number_event = None"
| "scan_events rp (event # events) number_event =
     (if str_find (py_str rp event) ''admin'' \<noteq> - 1 then Some number_event
      else scan_events rp events (Suc number_event))"

text \<open>The address loaded for a region.\<close>

definition region_url :: "world \<Rightarrow> pyval \<Rightarrow> string" where
  "region_url w region =
     (if region = PNone then ''https://aratiendas.com/rebajon/''
      else ''https://aratiendas.com/rebajon/'' @ py_str (py_repr w) region @ ''/'')"

text \<open>
  The first half of the loop body, down to \<open>.get("body")\<close>. The variable
  \<open>first_event\<close> is assigned only when the scan finds an event, and is never reset: it
  is unbound (\<open>None\<close> here) until some region has had one, and afterwards keeps the
  number found last. The result is the variable after the scan and the body fetched.
\<close>

definition fetch_products ::
  "world \<Rightarrow> nat \<Rightarrow> nat option \<Rightarrow> pyval \<Rightarrow> error + (nat option \<times> pyval)" where
  "fetch_products w launched first_event region =
     and_then (create_web_driver w launched) (\<lambda>driver.
     and_then (get_log driver (region_url w region)) (\<lambda>browser_log.
     and_then (map_result (process_browser_log_entry w) browser_log) (\<lambda>events.
     let first_event' =
           (case scan_events (py_repr w) events 0 of
              Some number_event \<Rightarrow> Some number_event
            | None \<Rightarrow> first_event)
     in and_then
          (case first_event' of
             None \<Rightarrow> Inl UnboundLocalError
           | Some i \<Rightarrow> if i < length events then Inr (events ! i) else Inl IndexError)
          (\<lambda>event.
     and_then (getitem event ''params'') (\<lambda>params.
     and_then (getitem params ''requestId'') (\<lambda>request_id.
     and_then (execute_cdp_cmd driver (PDict [(''requestId'', request_id)])) (\<lambda>response.
     and_then (dict_get response ''body'') (\<lambda>products.
       Inr (first_event', products)))))))))"

text \<open>The four fields added to a product's record in the inner loop.\<close>

definition tag_product :: "world \<Rightarrow> pyval \<Rightarrow> pydict \<Rightarrow> pydict" where
  "tag_product w region product_info =
     dict_set
       (dict_set
          (dict_set
             (dict_set product_info ''extracted_region'' region)
             ''extracted_datetime'' (PDatetime (datetime_now w)))
          ''extracted_date'' (PStr (strftime_Ymd (datetime_now w))))
       ''extracted_time'' (PStr (strftime_HMS (datetime_now w)))"

text \<open>
  The second half of the loop body, from \<open>json.loads(products)\<close> to the end of the
  inner loop: the value of \<open>list_products_info\<close>.
\<close>

definition region_products :: "world \<Rightarrow> pyval \<Rightarrow> pyval \<Rightarrow> error + pydict list" where
  "region_products w region products =
     and_then (json_loads w products) (\<lambda>json_products.
     and_then (dict_get json_products ''data'') (\<lambda>list_products.
     and_then (py_len list_products) (\<lambda>total.
     and_then (py_iter list_products) (\<lambda>items.
       map_result
         (\<lambda>product. and_then (get_product_info w product)
                      (\<lambda>product_info. Inr (tag_product w region product_info)))
         items))))"

record loop_state =
  first_event :: "nat option"
  products_dataframe_list :: "dataframe list"

text \<open>One turn of the loop over the regions; \<open>continue\<close> leaves the list of tables alone.\<close>

definition region_step :: "world \<Rightarrow> nat \<Rightarrow> pyval \<Rightarrow> loop_state \<Rightarrow> error + loop_state" where
  "region_step w launched region st =
     and_then (fetch_products w launched (first_event st) region) (\<lambda>(first_event', products).
       if \<not> truthy products then Inr (st\<lparr>first_event := first_event'\<rparr>)
       else
         and_then (region_products w region products) (\<lambda>list_products_info.
           Inr \<lparr>first_event = first_event',
                products_dataframe_list =
                  products_dataframe_list st @ [DataFrame list_products_info]\<rparr>))"

text \<open>The loop, with the number of browsers launched so far.\<close>

fun regions_loop :: "world \<Rightarrow> nat \<Rightarrow> pyval list \<Rightarrow> loop_state \<Rightarrow> error + loop_state" where
  "regions_loop w launched [] st = Inr st"
| "regions_loop w launched (region # regions) st =
     and_then (region_step w launched region st) (regions_loop w (Suc launched) regions)"

text \<open>\<open>webscraping_ara(regions)\<close>.\<close>

definition webscraping_ara :: "world \<Rightarrow> pyval list \<Rightarrow> error + dataframe" where
  "webscraping_ara w regions =
     and_then
       (regions_loop w 0 regions \<lparr>first_event = None, products_dataframe_list = []\<rparr>)
       (\<lambda>st. and_then (pd_concat (products_dataframe_list st)) (\<lambda>products_dataframe.
          Inr (reset_index products_dataframe)))"

definition REGIONS :: "pyval list" where
  "REGIONS = [PNone, PStr ''norte'', PStr ''sur'', PStr ''oriente'', PStr ''occidente'',
              PStr ''centro'']"

section \<open>Reading a run\<close>

text \<open>
  What the claims about a whole run speak of. The products found for a region are the
  items under \<open>"data"\<close> of its decoded body, in the payload's order, and none for a
  region whose body is empty; \<open>scraped\<close> lists them region by region, in the order the
  regions were supplied, carrying \<open>first_event\<close> from one region to the next as the
  loop does. The list stops at a region whose fetch raises.
\<close>

definition payload_items :: "world \<Rightarrow> pyval \<Rightarrow> pyval list" where
  "payload_items w products =
     (case json_loads w products of
        Inl e \<Rightarrow> []
      | Inr json_products \<Rightarrow>
          (case dict_get json_products ''data'' of
             Inl e \<Rightarrow> []
           | Inr list_products \<Rightarrow>
               (case py_iter list_products of Inl e \<Rightarrow> [] | Inr items \<Rightarrow> items)))"

fun scraped :: "world \<Rightarrow> nat \<Rightarrow> nat option \<Rightarrow> pyval list \<Rightarrow> (pyval \<times> pyval list) list" where
  "scraped w launched fe [] = []"
| "scraped w launched fe (region # regions) =
     (case fetch_products w launched fe region of
        Inl e \<Rightarrow> []
      | Inr (fe', products) \<Rightarrow>
          (region, if truthy products then payload_items w products else [])
          # scraped w (Suc launched) fe' regions)"

text \<open>The record of one product in the table: normalized, then tagged.\<close>

definition normalized :: "world \<Rightarrow> pyval \<Rightarrow> pyval \<Rightarrow> pydict" where
  "normalized w region product =
     (case get_product_info w product of
        Inl e \<Rightarrow> []
      | Inr product_info \<Rightarrow> tag_product w region product_info)"

text \<open>Every region of the list reaches the test of its body and is skipped there.\<close>

fun all_skipped :: "world \<Rightarrow> nat \<Rightarrow> nat option \<Rightarrow> pyval list \<Rightarrow> bool" where
  "all_skipped w launched fe [] = True"
| "all_skipped w launched fe (region # regions) =
     (case fetch_products w launched fe region of
        Inl e \<Rightarrow> False
      | Inr (fe', products) \<Rightarrow> \<not> truthy products \<and> all_skipped w (Suc launched) fe' regions)"

text \<open>The cells of one column, top to bottom; all missing when the table lacks the column.\<close>

definition df_column :: "dataframe \<Rightarrow> string \<Rightarrow> pyval option list" where
  "df_column df c =
     map (\<lambda>row. case map_of (zip (df_columns df) row) c of None \<Rightarrow> None | Some cell \<Rightarrow> cell)
       (df_rows df)"

text \<open>The field names of the data model, in the order the script sets them.\<close>

definition field_names :: "string list" where
  "field_names =
     [''id'', ''image_url'', ''post_type'', ''post_date'', ''post_modified'', ''post_status'',
      ''post_name'', ''product_name'', ''post_title'', ''comunicacion_type'',
      ''product_description'', ''sale_price'', ''price'', ''price_type'', ''brand'',
      ''outstanding'', ''sap_ean_code'', ''region'', ''measure'', ''product_url'', ''category'',
      ''extracted_region'', ''extracted_datetime'', ''extracted_date'', ''extracted_time'']"

section \<open>A sample site\<close>

text \<open>
  Concrete surroundings to run the script in: a clock, two network events with their
  Python renderings, the log messages and bodies that decode to them, two products,
  and the redirects of the product pages.
\<close>

definition sample_now :: datetime where
  "sample_now = \<lparr>year = 2024, month = 3, day = 9, hour = 7, minute = 5, second = 30,
                  microsecond = 0\<rparr>"

definition admin_event :: pyval where
  "admin_event =
     PDict [(''method'', PStr ''Network.responseReceived''),
            (''params'', PDict [(''requestId'', PStr ''7''),
                                (''response'', PDict [(''url'',
                                   PStr ''https://aratiendas.com/wp-admin/admin-ajax.php'')])])]"

definition data_event :: pyval where
  "data_event =
     PDict [(''method'', PStr ''Network.dataReceived''),
            (''params'', PDict [(''requestId'', PStr ''9'')])]"

definition sample_repr :: "pyval \<Rightarrow> string" where
  "sample_repr v =
     (if v = admin_event
      then ''{'method': 'Network.responseReceived', 'params': {'requestId': '7', 'response': {'url': 'https://aratiendas.com/wp-admin/admin-ajax.php'}}}''
      else if v = data_event
      then ''{'method': 'Network.dataReceived', 'params': {'requestId': '9'}}''
      else if v = PNone then ''None''
      else [])"

definition admin_message :: string where
  \<open>admin_message = ''{"message": {"method": "Network.responseReceived", "params": {"requestId": "7", "response": {"url": "https://aratiendas.com/wp-admin/admin-ajax.php"}}}}''\<close>

definition data_message :: string where
  \<open>data_message = ''{"message": {"method": "Network.dataReceived", "params": {"requestId": "9"}}}''\<close>

definition catalog_body :: string where
  \<open>catalog_body = ''{"data": [{"ID": 101, "post_type": "producto", "post_name": "leche-entera", "meta": {"marca": ["AcmeCo"]}}, {"ID": 102, "post_type": "producto", "post_name": "arroz"}]}''\<close>

definition leche :: pyval where
  "leche = PDict [(''ID'', PInt 101), (''post_type'', PStr ''producto''),
                  (''post_name'', PStr ''leche-entera''),
                  (''meta'', PDict [(''marca'', PList [PStr ''AcmeCo''])])]"

definition arroz :: pyval where
  "arroz = PDict [(''ID'', PInt 102), (''post_type'', PStr ''producto''),
                  (''post_name'', PStr ''arroz'')]"

definition sample_json_loads :: "pyval \<Rightarrow> error + pyval" where
  \<open>sample_json_loads v =
     (case v of
        PStr s \<Rightarrow>
          if s = admin_message then Inr (PDict [(''message'', admin_event)])
          else if s = data_message then Inr (PDict [(''message'', data_event)])
          else if s = catalog_body then Inr (PDict [(''data'', PList [leche, arroz])])
          else if s = ''{}'' then Inr (PDict [])
          else Inl JSONDecodeError
      | _ \<Rightarrow> Inl TypeError)\<close>

definition log_entry :: "string \<Rightarrow> pyval" where
  "log_entry message =
     PDict [(''level'', PStr ''INFO''), (''message'', PStr message),
            (''timestamp'', PInt 1709967930000)]"

text \<open>A browser whose log holds the given messages and which knows the given bodies.\<close>

definition sample_driver :: "string list \<Rightarrow> (string \<times> pyval) list \<Rightarrow> web_driver" where
  "sample_driver messages bodies =
     \<lparr>get_log = (\<lambda>url. if prefix ''https://aratiendas.com/rebajon/'' url
                        then Inr (map log_entry messages) else Inl WebDriverException),
      execute_cdp_cmd = (\<lambda>arg. case arg of
          PDict [(k, PStr request_id)] \<Rightarrow>
            (case map_of bodies request_id of
               Some body \<Rightarrow> Inr (PDict [(''body'', body), (''base64Encoded'', PBool False)])
             | None \<Rightarrow> Inl WebDriverException)
        | _ \<Rightarrow> Inl WebDriverException)\<rparr>"

definition sample_redirects :: "string \<Rightarrow> error + string" where
  "sample_redirects url =
     (if url = ''https://aratiendas.com/producto/leche-entera/''
      then Inr ''https://aratiendas.com/producto/lacteos/leche-entera/''
      else if url = ''https://aratiendas.com/producto/arroz/''
      then Inr ''https://aratiendas.com/producto/despensa/arroz/''
      else Inl RequestException)"

definition sample_world :: "web_driver list \<Rightarrow> (string \<Rightarrow> error + string) \<Rightarrow> world" where
  "sample_world drivers redirects =
     \<lparr>datetime_now = sample_now,
      py_repr = sample_repr,
      json_loads = sample_json_loads,
      create_web_driver = (\<lambda>n. if n < length drivers then Inr (drivers ! n)
                                 else Inl WebDriverException),
      requests_get_url = redirects\<rparr>"

text \<open>The catalog for the first region and an empty body for the second.\<close>

definition world_catalog_then_empty :: world where
  "world_catalog_then_empty =
     sample_world
       [sample_driver [data_message, admin_message] [(''7'', PStr catalog_body)],
        sample_driver [admin_message] [(''7'', PStr [])]]
       sample_redirects"

text \<open>The second region's log has no admin event.\<close>

definition world_no_admin_second :: world where
  "world_no_admin_second =
     sample_world
       [sample_driver [admin_message] [(''7'', PStr catalog_body)],
        sample_driver [data_message] [(''9'', PStr [])]]
       sample_redirects"

text \<open>The body decodes to an object without \<open>"data"\<close>.\<close>

definition world_no_data :: world where
  "world_no_data =
     sample_world [sample_driver [admin_message] [(''7'', PStr ''{}'')]] sample_redirects"

text \<open>Every body is empty.\<close>

definition world_all_empty :: world where
  "world_all_empty =
     sample_world
       [sample_driver [admin_message] [(''7'', PStr [])],
        sample_driver [admin_message] [(''7'', PNone)]]
       sample_redirects"

text \<open>The product page resolves to an address with the category after the name.\<close>

definition world_category_last :: world where
  "world_category_last =
     sample_world []
       (\<lambda>url. if url = ''https://aratiendas.com/producto/leche-entera/''
              then Inr ''https://aratiendas.com/producto/leche-entera/lacteos/''
              else Inl RequestException)"

text \<open>
  The table of the run over the regions \<open>None\<close> and \<open>norte\<close> on the site with the catalog
  for the first and an empty body for the second.
\<close>

definition sample_table :: dataframe where
  "sample_table =
     \<lparr>df_columns = field_names,
      df_index = [0, 1],
      df_rows =
        [[Some (PInt 101), Some PNone, Some (PStr ''producto''), Some PNone, Some PNone,
          Some PNone, Some (PStr ''leche-entera''), Some (PStr ''leche-entera''), Some PNone,
          Some (PStr []), Some (PStr []), Some (PStr []), Some (PStr []), Some (PStr []),
          Some (PStr ''m''), Some (PStr []), Some (PStr []), Some (PStr []), Some (PStr []),
          Some (PStr ''https://aratiendas.com/producto/leche-entera/''),
          Some (PTuple [PStr ''lacteos'']), Some PNone, Some (PDatetime sample_now),
          Some (PStr ''20240309''), Some (PStr ''07:05:30'')],
         [Some (PInt 102), Some PNone, Some (PStr ''producto''), Some PNone, Some PNone,
          Some PNone, Some (PStr ''arroz''), Some (PStr ''arroz''), Some PNone,
          None, None, None, None, None, None, None, None, None, None,
          Some (PStr ''https://aratiendas.com/producto/arroz/''),
          Some (PTuple [PStr ''despensa'']), Some PNone, Some (PDatetime sample_now),
          Some (PStr ''20240309''), Some (PStr ''07:05:30'')]]\<rparr>"

section \<open>Sequencing\<close>

lemma and_then_Inl [simp]: "and_then (Inl e) f = Inl e"
  by (simp add: and_then_def)

lemma and_then_Inr [simp]: "and_then (Inr x) f = f x"
  by (simp add: and_then_def)

lemma and_then_eq_Inr: "(and_then r f = Inr y) = (\<exists>x. r = Inr x \<and> f x = Inr y)"
  by (cases r) simp_all

text \<open>The loop over a list in two parts is the loop over the first, then over the second.\<close>

lemma regions_loop_append:
  "regions_loop w n (pre @ post) st =
     and_then (regions_loop w n pre st) (regions_loop w (n + length pre) post)"
proof (induction pre arbitrary: n st)
  case Nil
  then show ?case by simp
next
  case (Cons r pre)
  show ?case
  proof (cases "region_step w n r st")
    case (Inl e)
    then show ?thesis by simp
  next
    case (Inr st')
    then show ?thesis using Cons.IH [of "Suc n" st'] by simp
  qed
qed

lemma region_step_skip:
  assumes "fetch_products w n (first_event st) region = Inr (fe, products)"
    and "\<not> truthy products"
  shows "region_step w n region st = Inr (st\<lparr>first_event := fe\<rparr>)"
  using assms by (simp add: region_step_def)

lemma all_skipped_loop:
  "all_skipped w n (first_event st) regions \<Longrightarrow>
   \<exists>fe. regions_loop w n regions st = Inr (st\<lparr>first_event := fe\<rparr>)"
proof (induction regions arbitrary: n st)
  case Nil
  have "st = st\<lparr>first_event := first_event st\<rparr>" by simp
  then show ?case by (metis regions_loop.simps(1))
next
  case (Cons r regions)
  from Cons.prems obtain fe products where
    f: "fetch_products w n (first_event st) r = Inr (fe, products)"
    and t: "\<not> truthy products"
    and rest: "all_skipped w (Suc n) fe regions"
    by (auto split: sum.splits)
  have step: "region_step w n r st = Inr (st\<lparr>first_event := fe\<rparr>)"
    using f t by (rule region_step_skip)
  from rest have "all_skipped w (Suc n) (first_event (st\<lparr>first_event := fe\<rparr>)) regions"
    by simp
  from Cons.IH [OF this] obtain fe' where
    "regions_loop w (Suc n) regions (st\<lparr>first_event := fe\<rparr>) = Inr (st\<lparr>first_event := fe'\<rparr>)"
    by auto
  with step show ?case by auto
qed

lemma region_products_no_data:
  assumes "json_loads w products = Inr (PDict kvs)" and "map_of kvs ''data'' = None"
  shows "region_products w region products = Inl TypeError"
  using assms by (simp add: region_products_def py_len_def)

section \<open>The meta fields (C1)\<close>

text \<open>
  C1 says that a meta field of the normalized record is the first element of the list
  bound to its key, so that \<open>meta = {"marca": ["AcmeCo"]}\<close> gives the brand
  \<open>AcmeCo\<close>, as the docstring of \<open>_get_first_element\<close> also promises. The code returns
  the first character of the key's name instead: on this meta the helper returns \<open>m\<close>,
  and the record of the sample product with this meta has the brand \<open>m\<close>.
\<close>

theorem brand_is_first_letter_of_key:
  "get_first_element (PDict [(''marca'', PList [PStr ''AcmeCo''])]) ''marca'' = Inr ''m''
   \<and> get_product_info world_catalog_then_empty leche =
       Inr [(''id'', PInt 101), (''image_url'', PNone), (''post_type'', PStr ''producto''),
            (''post_date'', PNone), (''post_modified'', PNone), (''post_status'', PNone),
            (''post_name'', PStr ''leche-entera''), (''product_name'', PStr ''leche-entera''),
            (''post_title'', PNone), (''comunicacion_type'', PStr []),
            (''product_description'', PStr []), (''sale_price'', PStr []), (''price'', PStr []),
            (''price_type'', PStr []), (''brand'', PStr ''m''), (''outstanding'', PStr []),
            (''sap_ean_code'', PStr []), (''region'', PStr []), (''measure'', PStr []),
            (''product_url'', PStr ''https://aratiendas.com/producto/leche-entera/''),
            (''category'', PTuple [PStr ''lacteos''])]"
  by code_simp

section \<open>The scan for the admin event (C2)\<close>

text \<open>
  C2 says that a region whose log has no event with \<open>admin\<close> in it makes the run fail.
  That holds only while no earlier region has had such an event. In the sample run
  below the first region's admin event is number 0; the second region's log has one
  event, without \<open>admin\<close>; the scan finds nothing there, \<open>first_event\<close> still holds 0,
  the body of that other event's request is fetched, and the run returns a table.
\<close>

theorem stale_first_event_is_reused:
  "scan_events sample_repr [data_event] 0 = None
   \<and> fetch_products world_no_admin_second 1 None (PStr ''norte'') = Inl UnboundLocalError
   \<and> fetch_products world_no_admin_second 1 (Some 0) (PStr ''norte'') = Inr (Some 0, PStr [])
   \<and> isl (webscraping_ara world_no_admin_second [PNone, PStr ''norte'']) = False"
  by code_simp

section \<open>A payload without data (C4)\<close>

text \<open>
  C4 says that a region whose decoded payload lacks \<open>"data"\<close> is passed over without an
  error. On the sample site whose body is \<open>{}\<close> the run raises TypeError.
\<close>

theorem missing_data_raises: "webscraping_ara world_no_data [PNone] = Inl TypeError"
  by code_simp

text \<open>
  C4 as amended: when a run reaches a region whose body is not empty and decodes to an
  object without the key \<open>"data"\<close>, the run raises TypeError (where the number of
  products is taken) and returns no table.
\<close>

theorem missing_data_aborts_run:
  assumes "regions_loop w 0 pre \<lparr>first_event = None, products_dataframe_list = []\<rparr> = Inr st"
    and "fetch_products w (length pre) (first_event st) region = Inr (fe, products)"
    and "truthy products"
    and "json_loads w products = Inr (PDict kvs)"
    and "map_of kvs ''data'' = None"
  shows "webscraping_ara w (pre @ region # post) = Inl TypeError"
proof -
  have "region_step w (length pre) region st = Inl TypeError"
    using assms(2,3) region_products_no_data [OF assms(4,5)]
    by (simp add: region_step_def)
  then show ?thesis
    using assms(1) by (simp add: webscraping_ara_def regions_loop_append)
qed

theorem missing_data_aborts_run_witness:
  "fetch_products world_no_data 0 None PNone = Inr (Some 0, PStr ''{}'')
   \<and> truthy (PStr ''{}'')
   \<and> json_loads world_no_data (PStr ''{}'') = Inr (PDict [])
   \<and> webscraping_ara world_no_data ([] @ PNone # [PStr ''norte'']) = Inl TypeError"
proof -
  have f: "fetch_products world_no_data 0 None PNone = Inr (Some 0, PStr ''{}'')"
    by code_simp
  have j: "json_loads world_no_data (PStr ''{}'') = Inr (PDict [])"
    by code_simp
  have "webscraping_ara world_no_data ([] @ PNone # [PStr ''norte'']) = Inl TypeError"
    by (rule missing_data_aborts_run
          [where st = "\<lparr>first_event = None, products_dataframe_list = []\<rparr>"
             and fe = "Some 0" and products = "PStr ''{}''" and kvs = "[]"])
       (simp_all add: f j)
  with f j show ?thesis by simp
qed

section \<open>An empty body (C5)\<close>

text \<open>
  C5: a region whose fetched body is empty or absent is skipped. When the run has
  reached the region in state \<open>st\<close> and the body fetched is falsy (\<open>None\<close> and the empty
  string are), the turn of the loop raises nothing, leaves the list of tables as it
  was, so that the region adds no row, and the loop goes on with the remaining regions.
\<close>

theorem empty_body_skips_region:
  assumes "regions_loop w 0 pre \<lparr>first_event = None, products_dataframe_list = []\<rparr> = Inr st"
    and "fetch_products w (length pre) (first_event st) region = Inr (fe, products)"
    and "\<not> truthy products"
  shows "region_step w (length pre) region st = Inr (st\<lparr>first_event := fe\<rparr>)
       \<and> products_dataframe_list (st\<lparr>first_event := fe\<rparr>) = products_dataframe_list st
       \<and> regions_loop w 0 (pre @ region # post)
             \<lparr>first_event = None, products_dataframe_list = []\<rparr>
           = regions_loop w (Suc (length pre)) post (st\<lparr>first_event := fe\<rparr>)"
  using assms region_step_skip [OF assms(2,3)]
  by (simp add: regions_loop_append)

text \<open>
  The scenario of two regions: the first yields the two sample products, the second an
  empty body; the loop ends with the one table of the first region.
\<close>

theorem empty_body_skips_region_witness:
  "fetch_products world_catalog_then_empty 1 (Some 1) (PStr ''norte'') = Inr (Some 0, PStr [])
   \<and> \<not> truthy (PStr [])
   \<and> regions_loop world_catalog_then_empty 0 ([PNone] @ PStr ''norte'' # [])
        \<lparr>first_event = None, products_dataframe_list = []\<rparr>
      = Inr \<lparr>first_event = Some 0,
             products_dataframe_list =
               [DataFrame [normalized world_catalog_then_empty PNone leche,
                           normalized world_catalog_then_empty PNone arroz]]\<rparr>"
proof -
  let ?st = "\<lparr>first_event = Some 1,
              products_dataframe_list =
                [DataFrame [normalized world_catalog_then_empty PNone leche,
                            normalized world_catalog_then_empty PNone arroz]]\<rparr>"
  have l: "regions_loop world_catalog_then_empty 0 [PNone]
             \<lparr>first_event = None, products_dataframe_list = []\<rparr> = Inr ?st"
    by code_simp
  have f: "fetch_products world_catalog_then_empty 1 (Some 1) (PStr ''norte'')
            = Inr (Some 0, PStr [])"
    by code_simp
  have f': "fetch_products world_catalog_then_empty (length [PNone]) (first_event ?st)
              (PStr ''norte'') = Inr (Some 0, PStr [])"
    using f by simp
  have t: "\<not> truthy (PStr [])" by simp
  from empty_body_skips_region [OF l f' t, of "[]"] f show ?thesis by simp
qed

section \<open>Nothing to concatenate (C10)\<close>

text \<open>
  C10: when the list of regions is empty, or every region in it is skipped for an
  empty or absent body, the run does not return an empty table: \<open>pd.concat\<close> is applied
  to an empty list and raises ValueError.
\<close>

theorem no_tables_raises:
  assumes "all_skipped w 0 None regions"
  shows "webscraping_ara w regions = Inl ValueError"
proof -
  let ?init = "\<lparr>first_event = None, products_dataframe_list = []\<rparr>"
  from assms have "all_skipped w 0 (first_event ?init) regions" by simp
  from all_skipped_loop [OF this] obtain fe where
    "regions_loop w 0 regions ?init = Inr (?init\<lparr>first_event := fe\<rparr>)" by blast
  then show ?thesis by (simp add: webscraping_ara_def pd_concat_def)
qed

theorem no_tables_raises_witness:
  "all_skipped world_all_empty 0 None [PNone, PStr ''sur'']
   \<and> webscraping_ara world_all_empty [PNone, PStr ''sur''] = Inl ValueError
   \<and> webscraping_ara world_all_empty [] = Inl ValueError"
proof -
  have a: "all_skipped world_all_empty 0 None [PNone, PStr ''sur'']"
    by code_simp
  have e: "all_skipped world_all_empty 0 None []"
    by simp
  from no_tables_raises [OF a] no_tables_raises [OF e] a show ?thesis by simp
qed


section \<open>Replacing in strings\<close>

lemma replace_scan_skip: "replace_scan old new k s = replace_scan old new 0 (drop k s)"
proof (induction s arbitrary: k)
  case Nil
  show ?case by simp
next
  case (Cons c s)
  show ?case
  proof (cases k)
    case 0
    then show ?thesis by simp
  next
    case (Suc j)
    then show ?thesis using Cons.IH [of j] by simp
  qed
qed

text \<open>Where \<open>old\<close> does not occur, nothing is replaced.\<close>

lemma replace_scan_absent: "\<not> sublist old s \<Longrightarrow> replace_scan old new 0 s = s"
proof (induction s)
  case Nil
  show ?case by simp
next
  case (Cons c s)
  from Cons.prems have "\<not> prefix old (c # s) \<and> \<not> sublist old s"
    by (simp add: sublist_Cons_right)
  then show ?case using Cons.IH by simp
qed

text \<open>An occurrence at the front is replaced, and the scan goes on behind it.\<close>

lemma replace_scan_front:
  assumes "old \<noteq> []"
  shows "replace_scan old new 0 (old @ s) = new @ replace_scan old new 0 s"
proof -
  from assms obtain c t where old: "old = c # t" by (cases old) auto
  have "replace_scan old new 0 (c # t @ s) = new @ replace_scan old new (length t) (t @ s)"
    by (simp add: old)
  also have "replace_scan old new (length t) (t @ s) = replace_scan old new 0 s"
    by (subst replace_scan_skip) simp
  finally show ?thesis by (simp add: old)
qed

text \<open>An occurrence at the very end, and none before it.\<close>

lemma replace_scan_back:
  assumes "old \<noteq> []" and "\<not> sublist old (butlast (xs @ old))"
  shows "replace_scan old new 0 (xs @ old) = xs @ new"
  using assms(2)
proof (induction xs)
  case Nil
  from replace_scan_front [OF assms(1), of new "[]"] show ?case by simp
next
  case (Cons c xs)
  have "\<not> prefix old (c # xs @ old)"
  proof
    assume "prefix old (c # xs @ old)"
    then obtain r where r: "c # xs @ old = old @ r" by (auto simp: prefix_def)
    then have "length (c # xs @ old) = length (old @ r)"
      by simp
    then have "length r = Suc (length xs)"
      by simp
    then have "r \<noteq> []" by auto
    then have "butlast (c # xs @ old) = old @ butlast r"
      by (simp add: r butlast_append)
    then have "prefix old (butlast ((c # xs) @ old))"
      by simp
    then have "sublist old (butlast ((c # xs) @ old))"
      by (rule prefix_imp_sublist)
    with Cons.prems show False by simp
  qed
  moreover have "\<not> sublist old (butlast (xs @ old))"
  proof
    assume "sublist old (butlast (xs @ old))"
    then have "sublist old (c # butlast (xs @ old))"
      by (simp add: sublist_Cons_right)
    with Cons.prems assms(1) show False by simp
  qed
  ultimately show ?case using Cons.IH by simp
qed

lemma str_replace_absent: "\<not> sublist old s \<Longrightarrow> str_replace s old new = s"
  by (cases "old = []") (simp_all add: str_replace_def replace_scan_absent)

lemma str_replace_front:
  "old \<noteq> [] \<Longrightarrow> \<not> sublist old s \<Longrightarrow> str_replace (old @ s) old new = new @ s"
  by (simp add: str_replace_def replace_scan_front replace_scan_absent)

lemma str_replace_back:
  "old \<noteq> [] \<Longrightarrow> \<not> sublist old (butlast (xs @ old)) \<Longrightarrow> str_replace (xs @ old) old new = xs @ new"
  by (simp add: str_replace_def replace_scan_back)

lemma sublist_single: "sublist [c] s = (c \<in> set s)"
  by (induction s) (simp_all add: sublist_Cons_right)

section \<open>The category (C3)\<close>

text \<open>
  C3 says that the category is a plain string and that the address
  \<open>https://aratiendas.com/producto/leche-entera/lacteos/\<close> gives \<open>lacteos/\<close>. On
  that address the code computes \<open>leche-entera/lacteos/\<close>: once \<open>producto/\<close> is
  removed, the name no longer has the slash before it that the third replacement looks
  for. The value stored for the sample product is not the string \<open>lacteos/\<close>.
\<close>

theorem category_after_name_is_kept:
  "category_string ''producto'' ''leche-entera''
      ''https://aratiendas.com/producto/leche-entera/lacteos/'' = ''leche-entera/lacteos/''
   \<and> get_product_info world_category_last leche =
       Inr [(''id'', PInt 101), (''image_url'', PNone), (''post_type'', PStr ''producto''),
            (''post_date'', PNone), (''post_modified'', PNone), (''post_status'', PNone),
            (''post_name'', PStr ''leche-entera''), (''product_name'', PStr ''leche-entera''),
            (''post_title'', PNone), (''comunicacion_type'', PStr []),
            (''product_description'', PStr []), (''sale_price'', PStr []), (''price'', PStr []),
            (''price_type'', PStr []), (''brand'', PStr ''m''), (''outstanding'', PStr []),
            (''sap_ean_code'', PStr []), (''region'', PStr []), (''measure'', PStr []),
            (''product_url'', PStr ''https://aratiendas.com/producto/leche-entera/''),
            (''category'', PTuple [PStr ''leche-entera/lacteos/''])]"
  by code_simp

text \<open>
  C3 as amended: the string computed for the category is the resolved address without
  its \<open>%\<close> characters, then without the site's base address, then without
  \<open>{post_type}/\<close>, then without \<open>/{product_name}/\<close>. When the resolved address is
  the base, the post type, a category and the product name in this order, each followed
  by a slash, and none of the three removed texts occurs anywhere else in it, that
  string is the category: the part between the type and the name.
\<close>

theorem category_is_middle_of_path:
  assumes "CHR ''%'' \<notin> set (product_type @ category @ product_name)"
    and "\<not> sublist base_url (product_type @ ''/'' @ category @ ''/'' @ product_name @ ''/'')"
    and "\<not> sublist (product_type @ ''/'') (category @ ''/'' @ product_name @ ''/'')"
    and "\<not> sublist (''/'' @ product_name @ ''/'') (category @ ''/'' @ product_name)"
  shows "category_string product_type product_name
           (str_replace
              (base_url @ product_type @ ''/'' @ category @ ''/'' @ product_name @ ''/'')
              ''%'' [])
         = category"
proof -
  let ?tail = "category @ ''/'' @ product_name @ ''/''"
  let ?path = "product_type @ ''/'' @ ?tail"
  have "CHR ''%'' \<notin> set (base_url @ ?path)"
    using assms(1) by (simp add: base_url_def)
  then have percent: "str_replace (base_url @ ?path) ''%'' [] = base_url @ ?path"
    by (intro str_replace_absent) (simp only: sublist_single, simp)
  have base: "str_replace (base_url @ ?path) base_url [] = ?path"
    using str_replace_front [OF _ assms(2), of "[]"] by (simp add: base_url_def)
  have type: "str_replace ((product_type @ ''/'') @ ?tail) (product_type @ ''/'') [] = ?tail"
    using str_replace_front [OF _ assms(3), of "[]"] by simp
  have "butlast (category @ ''/'' @ product_name @ ''/'') = category @ ''/'' @ product_name"
    by (simp add: butlast_append)
  then have name: "str_replace (category @ (''/'' @ product_name @ ''/''))
                     (''/'' @ product_name @ ''/'') [] = category"
    using str_replace_back [of "''/'' @ product_name @ ''/''" category "[]"] assms(4)
    by simp
  show ?thesis
    unfolding category_string_def percent base
    using type name by simp
qed

theorem category_is_middle_of_path_witness:
  "category_string ''producto'' ''leche-entera''
     (str_replace ''https://aratiendas.com/producto/lacteos/leche-entera/'' ''%'' [])
   = ''lacteos''"
proof -
  have 1: "CHR ''%'' \<notin> set (''producto'' @ ''lacteos'' @ ''leche-entera'')"
    by simp
  have 2: "\<not> sublist base_url (''producto'' @ ''/'' @ ''lacteos'' @ ''/'' @ ''leche-entera'' @ ''/'')"
    by code_simp
  have 3: "\<not> sublist (''producto'' @ ''/'') (''lacteos'' @ ''/'' @ ''leche-entera'' @ ''/'')"
    by code_simp
  have 4: "\<not> sublist (''/'' @ ''leche-entera'' @ ''/'') (''lacteos'' @ ''/'' @ ''leche-entera'')"
    by code_simp
  from category_is_middle_of_path [OF 1 2 3 4] show ?thesis
    by (simp add: base_url_def)
qed


section \<open>The keys of a normalized record\<close>

lemma dict_get_PDict: "dict_get (PDict kvs) key = Inr (scraped_get kvs key)"
  by (simp add: scraped_get_def split: option.splits)

lemma keys_dict_set:
  "map fst (dict_set d key v) = (if key \<in> set (map fst d) then map fst d else map fst d @ [key])"
  by (simp add: dict_set_def update_keys)

lemma map_of_dict_set: "map_of (dict_set d key v) = (map_of d)(key \<mapsto> v)"
  by (simp add: dict_set_def update_conv')

lemma copy_fields_PDict:
  "copy_fields (PDict kvs) fs d
     = Inr (fold (\<lambda>fk acc. dict_set acc (fst fk) (scraped_get kvs (snd fk))) fs d)"
proof (induction fs arbitrary: d)
  case Nil
  show ?case by simp
next
  case (Cons fk fs)
  then show ?case by (cases fk) (simp add: dict_get_PDict del: dict_get.simps)
qed

lemma get_first_element_PDict:
  "key \<noteq> [] \<Longrightarrow>
   get_first_element (PDict m) key
     = Inr (if is_list (scraped_get m key) then [hd key] else [])"
  by (cases key) (simp_all add: get_first_element_def dict_get_PDict del: dict_get.simps)

lemma copy_meta_PDict:
  "\<forall>fk \<in> set fs. snd fk \<noteq> [] \<Longrightarrow>
   copy_meta (PDict m) fs d
     = Inr (fold (\<lambda>fk acc. dict_set acc (fst fk)
                    (PStr (if is_list (scraped_get m (snd fk)) then [hd (snd fk)] else [])))
              fs d)"
proof (induction fs arbitrary: d)
  case Nil
  show ?case by simp
next
  case (Cons fk fs)
  then show ?case by (cases fk) (simp add: get_first_element_PDict)
qed

lemma keys_fold_dict_set:
  "map fst (fold (\<lambda>fk acc. dict_set acc (fst fk) (g fk)) fs d)
     = fold (\<lambda>k ks. if k \<in> set ks then ks else ks @ [k]) (map fst fs) (map fst d)"
  by (induction fs arbitrary: d) (simp_all add: keys_dict_set)

lemma direct_keys:
  "fold (\<lambda>k ks. if k \<in> set ks then ks else ks @ [k]) (map fst direct_fields) []
     = [''id'', ''image_url'', ''post_type'', ''post_date'', ''post_modified'',
        ''post_status'', ''post_name'', ''product_name'', ''post_title'']"
  by (simp add: direct_fields_def)

lemma meta_keys:
  "fold (\<lambda>k ks. if k \<in> set ks then ks else ks @ [k]) (map fst meta_fields)
      [''id'', ''image_url'', ''post_type'', ''post_date'', ''post_modified'',
        ''post_status'', ''post_name'', ''product_name'', ''post_title'']
     = [''id'', ''image_url'', ''post_type'', ''post_date'', ''post_modified'',
        ''post_status'', ''post_name'', ''product_name'', ''post_title'',
        ''comunicacion_type'', ''product_description'', ''sale_price'', ''price'',
        ''price_type'', ''brand'', ''outstanding'', ''sap_ean_code'', ''region'', ''measure'']"
  by (simp add: meta_fields_def)

lemma meta_keys_nonempty: "\<forall>fk \<in> set meta_fields. snd fk \<noteq> []"
  by (simp add: meta_fields_def)

lemma meta_fields_nonempty: "meta_fields \<noteq> []"
  by (simp add: meta_fields_def)

text \<open>Only a dict gets through the meta assignments: any other truthy value has no \<open>get\<close>.\<close>

lemma copy_meta_Inr: "fs \<noteq> [] \<Longrightarrow> copy_meta meta fs d = Inr d' \<Longrightarrow> \<exists>m. meta = PDict m"
  by (cases fs; cases meta) (auto simp: get_first_element_def)

text \<open>
  The keys of the record \<open>_get_product_info\<close> returns, in order: the nine copied fields,
  the ten meta fields when \<open>meta\<close> is truthy, the address and the category.
\<close>

lemma get_product_info_keys:
  assumes "get_product_info w p = Inr d"
  shows "\<exists>kvs. p = PDict kvs \<and>
     map fst d =
       (if truthy (scraped_get kvs ''meta'')
        then [''id'', ''image_url'', ''post_type'', ''post_date'', ''post_modified'',
        ''post_status'', ''post_name'', ''product_name'', ''post_title'',
        ''comunicacion_type'', ''product_description'', ''sale_price'', ''price'',
        ''price_type'', ''brand'', ''outstanding'', ''sap_ean_code'', ''region'', ''measure'',
        ''product_url'', ''category'']
        else [''id'', ''image_url'', ''post_type'', ''post_date'', ''post_modified'',
        ''post_status'', ''post_name'', ''product_name'', ''post_title'',
        ''product_url'', ''category''])"
proof -
  from assms obtain s0 where "copy_fields p direct_fields [] = Inr s0"
    by (auto simp: get_product_info_def and_then_eq_Inr)
  then obtain kvs where p: "p = PDict kvs"
    by (cases p) (auto simp: direct_fields_def)
  define s1 where
    "s1 = fold (\<lambda>fk acc. dict_set acc (fst fk) (scraped_get kvs (snd fk))) direct_fields []"
  have k1: "map fst s1 = [''id'', ''image_url'', ''post_type'', ''post_date'', ''post_modified'',
        ''post_status'', ''post_name'', ''product_name'', ''post_title'']"
    unfolding s1_def by (simp only: keys_fold_dict_set list.map direct_keys)
  let ?meta = "scraped_get kvs ''meta''"
  from assms p have "\<exists>s2 u c.
      (if truthy ?meta then copy_meta ?meta meta_fields s1 else Inr s1) = Inr s2 \<and>
      d = dict_set (dict_set s2 ''product_url'' u) ''category'' c"
    unfolding s1_def
    by (auto simp: get_product_info_def and_then_eq_Inr copy_fields_PDict dict_get_PDict
        Let_def simp del: dict_get.simps; blast)
  then obtain s2 u c where
    s2: "(if truthy ?meta then copy_meta ?meta meta_fields s1 else Inr s1) = Inr s2"
    and d: "d = dict_set (dict_set s2 ''product_url'' u) ''category'' c"
    by blast
  have k2: "map fst s2 = (if truthy ?meta
      then [''id'', ''image_url'', ''post_type'', ''post_date'', ''post_modified'',
        ''post_status'', ''post_name'', ''product_name'', ''post_title'',
        ''comunicacion_type'', ''product_description'', ''sale_price'', ''price'',
        ''price_type'', ''brand'', ''outstanding'', ''sap_ean_code'', ''region'', ''measure'']
      else [''id'', ''image_url'', ''post_type'', ''post_date'', ''post_modified'',
        ''post_status'', ''post_name'', ''product_name'', ''post_title''])"
  proof (cases "truthy ?meta")
    case True
    with s2 have c: "copy_meta ?meta meta_fields s1 = Inr s2" by simp
    from copy_meta_Inr [OF meta_fields_nonempty c] obtain m where m: "?meta = PDict m" by blast
    from c have "s2 = fold (\<lambda>fk acc. dict_set acc (fst fk)
                    (PStr (if is_list (scraped_get m (snd fk)) then [hd (snd fk)] else [])))
              meta_fields s1"
      by (simp add: m copy_meta_PDict [OF meta_keys_nonempty])
    then have "map fst s2 = fold (\<lambda>k ks. if k \<in> set ks then ks else ks @ [k])
                              (map fst meta_fields) (map fst s1)"
      by (simp only: keys_fold_dict_set)
    then show ?thesis using True by (simp only: k1 meta_keys if_True)
  next
    case False
    with s2 have "s2 = s1" by simp
    with False show ?thesis by (simp add: k1)
  qed
  from d have "map fst d = map fst s2 @ [''product_url'', ''category'']"
    using k2 by (simp add: keys_dict_set)
  with k2 p show ?thesis by simp
qed

section \<open>A product without meta (C6)\<close>

text \<open>
  C6: for a raw product record with no \<open>"meta"\<close> key, the normalized record has none
  of the meta fields: its keys are the nine copied fields, the address and the
  category, and a lookup of any of \<open>comunicacion_type\<close>, \<open>product_description\<close>,
  \<open>sale_price\<close>, \<open>price\<close>, \<open>price_type\<close>, \<open>brand\<close>, \<open>outstanding\<close>,
  \<open>sap_ean_code\<close>, \<open>region\<close>, \<open>measure\<close> finds nothing.
\<close>

theorem no_meta_key_no_meta_fields:
  assumes "map_of kvs ''meta'' = None"
    and "get_product_info w (PDict kvs) = Inr d"
  shows "map fst d = [''id'', ''image_url'', ''post_type'', ''post_date'', ''post_modified'',
                      ''post_status'', ''post_name'', ''product_name'', ''post_title'',
                      ''product_url'', ''category'']
       \<and> (\<forall>field \<in> set [''comunicacion_type'', ''product_description'', ''sale_price'',
                          ''price'', ''price_type'', ''brand'', ''outstanding'',
                          ''sap_ean_code'', ''region'', ''measure'']. map_of d field = None)"
proof -
  from assms(1) have "\<not> truthy (scraped_get kvs ''meta'')"
    by (simp add: scraped_get_def)
  with get_product_info_keys [OF assms(2)] have
    keys: "map fst d = [''id'', ''image_url'', ''post_type'', ''post_date'', ''post_modified'',
                      ''post_status'', ''post_name'', ''product_name'', ''post_title'',
                      ''product_url'', ''category'']"
    by auto
  have "map_of d field = None" if "field \<notin> set (map fst d)" for field
    using that by (simp add: map_of_eq_None_iff)
  then show ?thesis unfolding keys by simp
qed

theorem no_meta_key_no_meta_fields_witness:
  "map_of [(''ID'', PInt 102), (''post_type'', PStr ''producto''),
           (''post_name'', PStr ''arroz'')] ''meta'' = None
   \<and> get_product_info world_catalog_then_empty arroz =
       Inr [(''id'', PInt 102), (''image_url'', PNone), (''post_type'', PStr ''producto''),
            (''post_date'', PNone), (''post_modified'', PNone), (''post_status'', PNone),
            (''post_name'', PStr ''arroz''), (''product_name'', PStr ''arroz''),
            (''post_title'', PNone),
            (''product_url'', PStr ''https://aratiendas.com/producto/arroz/''),
            (''category'', PTuple [PStr ''despensa''])]"
proof -
  let ?kvs = "[(''ID'', PInt 102), (''post_type'', PStr ''producto''),
               (''post_name'', PStr ''arroz'')]"
  let ?d = "[(''id'', PInt 102), (''image_url'', PNone), (''post_type'', PStr ''producto''),
            (''post_date'', PNone), (''post_modified'', PNone), (''post_status'', PNone),
            (''post_name'', PStr ''arroz''), (''product_name'', PStr ''arroz''),
            (''post_title'', PNone),
            (''product_url'', PStr ''https://aratiendas.com/producto/arroz/''),
            (''category'', PTuple [PStr ''despensa''])]"
  have m: "map_of ?kvs ''meta'' = None" by simp
  have g: "get_product_info world_catalog_then_empty (PDict ?kvs) = Inr ?d"
    by code_simp
  from no_meta_key_no_meta_fields [OF m g] m g show ?thesis
    by (simp add: arroz_def)
qed


section \<open>Tables of records\<close>

lemma set_first_seen: "set (first_seen seen xs) = set xs - set seen"
  by (induction xs arbitrary: seen) auto

lemma distinct_first_seen: "distinct (first_seen seen xs)"
  by (induction xs arbitrary: seen) (auto simp: set_first_seen)

text \<open>A cell read back from a record's row is the record's own entry.\<close>

lemma cell_of_record:
  assumes "set (map fst d) \<subseteq> set cols"
  shows "(case map_of (zip cols (map (map_of d) cols)) c of None \<Rightarrow> None | Some cell \<Rightarrow> cell)
         = map_of d c"
proof (cases "c \<in> set cols")
  case True
  then show ?thesis by (simp add: map_of_zip_map)
next
  case False
  with assms have "c \<notin> fst ` set d" by auto
  then have "map_of d c = None" by (simp add: map_of_eq_None_iff)
  with False show ?thesis by (simp add: map_of_zip_map)
qed

lemma reindex_record:
  "set (map fst d) \<subseteq> set old \<Longrightarrow> reindex old new (map (map_of d) old) = map (map_of d) new"
  by (simp add: reindex_def cell_of_record)

lemma DataFrame_columns:
  "set (df_columns (DataFrame records)) = (\<Union>d \<in> set records. set (map fst d))"
  by (auto simp: DataFrame_def Let_def set_first_seen)

lemma DataFrame_rows:
  "df_rows (DataFrame records) = map (\<lambda>d. map (map_of d) (df_columns (DataFrame records))) records"
  by (simp add: DataFrame_def Let_def)

lemma reindex_DataFrame:
  "map (reindex (df_columns (DataFrame records)) cols) (df_rows (DataFrame records))
     = map (\<lambda>d. map (map_of d) cols) records"
proof -
  have "reindex (df_columns (DataFrame records)) cols
          (map (map_of d) (df_columns (DataFrame records))) = map (map_of d) cols"
    if "d \<in> set records" for d
    using that by (intro reindex_record) (auto simp: DataFrame_columns)
  then show ?thesis by (subst DataFrame_rows) simp
qed

text \<open>
  The concatenation of the tables of several lists of records: its rows are the
  records of all the lists, in order, along its columns; its columns are the keys of
  all the records.
\<close>

lemma pd_concat_DataFrames:
  assumes "pd_concat (map DataFrame recss) = Inr f"
  shows "df_rows f = map (\<lambda>d. map (map_of d) (df_columns f)) (concat recss)"
    and "set (df_columns f) = (\<Union>d \<in> set (concat recss). set (map fst d))"
    and "distinct (df_columns f)"
proof -
  let ?cols = "first_seen [] (concat (map df_columns (map DataFrame recss)))"
  from assms have f: "f = \<lparr>df_columns = ?cols,
      df_index = concat (map df_index (map DataFrame recss)),
      df_rows = concat (map (\<lambda>t. map (reindex (df_columns t) ?cols) (df_rows t))
                         (map DataFrame recss))\<rparr>"
    by (simp add: pd_concat_def Let_def split: if_splits)
  have "df_rows f = concat (map (\<lambda>records. map (\<lambda>d. map (map_of d) ?cols) records) recss)"
    by (simp add: f comp_def reindex_DataFrame)
  also have "\<dots> = map (\<lambda>d. map (map_of d) ?cols) (concat recss)"
    by (simp add: map_concat)
  finally show "df_rows f = map (\<lambda>d. map (map_of d) (df_columns f)) (concat recss)"
    by (simp add: f)
  show "set (df_columns f) = (\<Union>d \<in> set (concat recss). set (map fst d))"
    by (auto simp: f set_first_seen DataFrame_columns)
  show "distinct (df_columns f)"
    by (simp add: f distinct_first_seen)
qed

section \<open>The records of a run\<close>

lemma map_result_Inr: "map_result f xs = Inr ys \<Longrightarrow> list_all2 (\<lambda>x y. f x = Inr y) xs ys"
proof (induction xs arbitrary: ys)
  case Nil
  then show ?case by simp
next
  case (Cons x xs)
  from Cons.prems obtain y ys' where "f x = Inr y" "map_result f xs = Inr ys'" "ys = y # ys'"
    by (auto simp: and_then_eq_Inr)
  with Cons.IH show ?case by simp
qed

lemma normalized_Inr:
  "get_product_info w product = Inr product_info \<Longrightarrow>
   normalized w region product = tag_product w region product_info"
  by (simp add: normalized_def)

text \<open>
  When the second half of the loop body returns, its records are those of the
  payload's items, in the payload's order, and every item was normalized without error.
\<close>

lemma region_products_Inr:
  assumes "region_products w region products = Inr infos"
  shows "infos = map (normalized w region) (payload_items w products)"
    and "\<forall>p \<in> set (payload_items w products). \<exists>info. get_product_info w p = Inr info"
proof -
  from assms obtain json_products list_products items where
    j: "json_loads w products = Inr json_products"
    and l: "dict_get json_products ''data'' = Inr list_products"
    and i: "py_iter list_products = Inr items"
    and m: "map_result
         (\<lambda>product. and_then (get_product_info w product)
                      (\<lambda>product_info. Inr (tag_product w region product_info)))
         items = Inr infos"
    by (auto simp: region_products_def and_then_eq_Inr)
  have items: "payload_items w products = items"
    by (simp add: payload_items_def j l i)
  from map_result_Inr [OF m] have
    "list_all2 (\<lambda>p info. (\<exists>info. get_product_info w p = Inr info) \<and> info = normalized w region p)
       items infos"
    by (rule list_all2_mono) (auto simp: and_then_eq_Inr normalized_def)
  then have "infos = map (normalized w region) items
             \<and> (\<forall>p \<in> set items. \<exists>info. get_product_info w p = Inr info)"
    by (induction rule: list_all2_induct) simp_all
  then show "infos = map (normalized w region) (payload_items w products)"
    and "\<forall>p \<in> set (payload_items w products). \<exists>info. get_product_info w p = Inr info"
    by (simp_all add: items)
qed

text \<open>
  The loop appends to its list the tables of the records of the regions it visits, in
  the order of the regions; in a loop that returns, no fetch and no product raised.
\<close>

lemma regions_loop_tables:
  assumes "regions_loop w n regions st = Inr st'"
  shows "\<exists>recss.
      products_dataframe_list st' = products_dataframe_list st @ map DataFrame recss
      \<and> concat recss =
          concat (map (\<lambda>(region, items). map (normalized w region) items)
                    (scraped w n (first_event st) regions))
      \<and> (\<forall>(region, items) \<in> set (scraped w n (first_event st) regions).
            \<forall>p \<in> set items. \<exists>info. get_product_info w p = Inr info)
      \<and> map fst (scraped w n (first_event st) regions) = regions"
  using assms
proof (induction regions arbitrary: n st)
  case Nil
  then show ?case by simp
next
  case (Cons r regions)
  from Cons.prems obtain st1 where
    step: "region_step w n r st = Inr st1"
    and rest: "regions_loop w (Suc n) regions st1 = Inr st'"
    by (auto simp: and_then_eq_Inr)
  from step obtain fe products where
    f: "fetch_products w n (first_event st) r = Inr (fe, products)"
    by (cases "fetch_products w n (first_event st) r") (auto simp: region_step_def)
  from Cons.IH [OF rest] obtain recss where
    tables: "products_dataframe_list st' = products_dataframe_list st1 @ map DataFrame recss"
    and recs: "concat recss =
          concat (map (\<lambda>(region, items). map (normalized w region) items)
                    (scraped w (Suc n) (first_event st1) regions))"
    and ok: "\<forall>(region, items) \<in> set (scraped w (Suc n) (first_event st1) regions).
            \<forall>p \<in> set items. \<exists>info. get_product_info w p = Inr info"
    and all: "map fst (scraped w (Suc n) (first_event st1) regions) = regions"
    by blast
  show ?case
  proof (cases "truthy products")
    case False
    with step f have st1: "st1 = st\<lparr>first_event := fe\<rparr>"
      by (simp add: region_step_def)
    have "products_dataframe_list st' = products_dataframe_list st @ map DataFrame recss"
      using tables by (simp add: st1)
    moreover have "scraped w n (first_event st) (r # regions)
                   = (r, []) # scraped w (Suc n) (first_event st1) regions"
      using f False by (simp add: st1)
    ultimately show ?thesis using recs ok all by auto
  next
    case True
    with step f obtain infos where
      infos: "region_products w r products = Inr infos"
      and st1: "st1 = \<lparr>first_event = fe,
                        products_dataframe_list = products_dataframe_list st @ [DataFrame infos]\<rparr>"
      by (auto simp: region_step_def and_then_eq_Inr)
    have sc: "scraped w n (first_event st) (r # regions)
                   = (r, payload_items w products) # scraped w (Suc n) (first_event st1) regions"
      using f True by (simp add: st1)
    have "products_dataframe_list st'
            = products_dataframe_list st @ map DataFrame (infos # recss)"
      using tables by (simp add: st1)
    moreover have "concat (infos # recss) =
          concat (map (\<lambda>(region, items). map (normalized w region) items)
                    (scraped w n (first_event st) (r # regions)))"
      unfolding sc by (simp add: recs region_products_Inr(1) [OF infos])
    moreover have "\<forall>(region, items) \<in> set (scraped w n (first_event st) (r # regions)).
            \<forall>p \<in> set items. \<exists>info. get_product_info w p = Inr info"
      unfolding sc using ok region_products_Inr(2) [OF infos] by simp
    moreover have "map fst (scraped w n (first_event st) (r # regions)) = r # regions"
      unfolding sc by (simp add: all)
    ultimately show ?thesis by (intro exI [of _ "infos # recss"] conjI)
  qed
qed

text \<open>The table a run returns, in terms of the products scraped.\<close>

lemma run_table:
  assumes "webscraping_ara w regions = Inr df"
  defines "records \<equiv> concat (map (\<lambda>(region, items). map (normalized w region) items)
                                 (scraped w 0 None regions))"
  shows "df_rows df = map (\<lambda>d. map (map_of d) (df_columns df)) records"
    and "df_index df = [0..<length (df_rows df)]"
    and "set (df_columns df) = (\<Union>d \<in> set records. set (map fst d))"
    and "distinct (df_columns df)"
    and "\<forall>(region, items) \<in> set (scraped w 0 None regions).
            \<forall>p \<in> set items. \<exists>info. get_product_info w p = Inr info"
    and "map fst (scraped w 0 None regions) = regions"
proof -
  let ?init = "\<lparr>first_event = None, products_dataframe_list = []\<rparr>"
  from assms(1) obtain st f where
    loop: "regions_loop w 0 regions ?init = Inr st"
    and cat: "pd_concat (products_dataframe_list st) = Inr f"
    and df: "df = reset_index f"
    by (auto simp: webscraping_ara_def and_then_eq_Inr)
  from regions_loop_tables [OF loop] obtain recss where
    tables: "products_dataframe_list st = map DataFrame recss"
    and recs: "concat recss = records"
    and ok: "\<forall>(region, items) \<in> set (scraped w 0 None regions).
            \<forall>p \<in> set items. \<exists>info. get_product_info w p = Inr info"
    and all: "map fst (scraped w 0 None regions) = regions"
    unfolding records_def by auto
  from cat have cat': "pd_concat (map DataFrame recss) = Inr f"
    by (simp add: tables)
  show "df_rows df = map (\<lambda>d. map (map_of d) (df_columns df)) records"
    using pd_concat_DataFrames(1) [OF cat'] by (simp add: df reset_index_def recs)
  show "df_index df = [0..<length (df_rows df)]"
    by (simp add: df reset_index_def)
  show "set (df_columns df) = (\<Union>d \<in> set records. set (map fst d))"
    using pd_concat_DataFrames(2) [OF cat'] by (simp add: df reset_index_def recs)
  show "distinct (df_columns df)"
    using pd_concat_DataFrames(3) [OF cat'] by (simp add: df reset_index_def)
  show "\<forall>(region, items) \<in> set (scraped w 0 None regions).
            \<forall>p \<in> set items. \<exists>info. get_product_info w p = Inr info"
    by (rule ok)
  show "map fst (scraped w 0 None regions) = regions"
    by (rule all)
qed

section \<open>The sample run\<close>

lemma sample_run:
  "webscraping_ara world_catalog_then_empty [PNone, PStr ''norte''] = Inr sample_table"
  by code_simp

lemma sample_scraped:
  "scraped world_catalog_then_empty 0 None [PNone, PStr ''norte'']
     = [(PNone, [leche, arroz]), (PStr ''norte'', [])]"
  by code_simp

section \<open>Row order (C7)\<close>



section \<open>The extraction tags (C8)\<close>

lemma tag_product_lookups:
  "map_of (tag_product w region product_info) ''extracted_region'' = Some region"
  "map_of (tag_product w region product_info) ''extracted_datetime''
     = Some (PDatetime (datetime_now w))"
  "map_of (tag_product w region product_info) ''extracted_date''
     = Some (PStr (strftime_Ymd (datetime_now w)))"
  "map_of (tag_product w region product_info) ''extracted_time''
     = Some (PStr (strftime_HMS (datetime_now w)))"
  by (simp_all add: tag_product_def map_of_dict_set)

text \<open>A column of the returned table holds, row by row, the records' entries for it.\<close>

lemma run_column:
  assumes "webscraping_ara w regions = Inr df"
  shows "df_column df c =
           map (\<lambda>d. map_of d c)
             (concat (map (\<lambda>(region, items). map (normalized w region) items)
                        (scraped w 0 None regions)))"
proof -
  let ?records = "concat (map (\<lambda>(region, items). map (normalized w region) items)
                            (scraped w 0 None regions))"
  have "(case map_of (zip (df_columns df) (map (map_of d) (df_columns df))) c of
           None \<Rightarrow> None | Some cell \<Rightarrow> cell) = map_of d c"
    if "d \<in> set ?records" for d
  proof (rule cell_of_record)
    from that run_table(3) [OF assms] show "set (map fst d) \<subseteq> set (df_columns df)"
      by blast
  qed
  then show ?thesis
    unfolding df_column_def run_table(1) [OF assms] by (simp add: comp_def)
qed

lemma column_by_region:
  assumes "\<forall>(region, items) \<in> set sc. \<forall>p \<in> set items. map_of (g region p) c = v region"
  shows "map (\<lambda>d. map_of d c) (concat (map (\<lambda>(region, items). map (g region) items) sc))
         = concat (map (\<lambda>(region, items). replicate (length items) (v region)) sc)"
  using assms
proof (induction sc)
  case Nil
  show ?case by simp
next
  case (Cons entry sc)
  obtain region items where entry: "entry = (region, items)" by (cases entry)
  from Cons.prems have "\<forall>p \<in> set items. map_of (g region p) c = v region"
    by (simp add: entry)
  then have "map (\<lambda>p. map_of (g region p) c) items = replicate (length items) (v region)"
    by (simp add: map_replicate_const [symmetric])
  moreover from Cons.prems have
    "\<forall>(region, items) \<in> set sc. \<forall>p \<in> set items. map_of (g region p) c = v region"
    by simp
  ultimately show ?case using Cons.IH by (simp add: entry comp_def)
qed

lemma constant_column:
  assumes "\<forall>(region, items) \<in> set sc. \<forall>p \<in> set items. map_of (g region p) c = k"
  shows "map (\<lambda>d. map_of d c) (concat (map (\<lambda>(region, items). map (g region) items) sc))
         = replicate (length (concat (map (\<lambda>(region, items). map (g region) items) sc))) k"
proof -
  let ?records = "concat (map (\<lambda>(region, items). map (g region) items) sc)"
  from assms have "\<forall>d \<in> set ?records. map_of d c = k" by auto
  then have "map (\<lambda>d. map_of d c) ?records = map (\<lambda>d. k) ?records"
    by simp
  then show ?thesis by (simp only: map_replicate_const)
qed

text \<open>
  C8: in every run that returns, every row's \<open>extracted_datetime\<close> is the one
  timestamp read at the start of the run, its \<open>extracted_date\<close> and \<open>extracted_time\<close>
  are the renderings \<open>%Y%m%d\<close> and \<open>%H:%M:%S\<close> of that timestamp, and its
  \<open>extracted_region\<close> is the region it was scraped under (\<open>None\<close> for the region
  \<open>None\<close>): the column of regions is each supplied region repeated once for each
  product of its payload.
\<close>

theorem rows_carry_run_timestamp_and_region:
  assumes "webscraping_ara w regions = Inr df"
  shows "df_column df ''extracted_datetime''
           = replicate (length (df_rows df)) (Some (PDatetime (datetime_now w)))
       \<and> df_column df ''extracted_date''
           = replicate (length (df_rows df)) (Some (PStr (strftime_Ymd (datetime_now w))))
       \<and> df_column df ''extracted_time''
           = replicate (length (df_rows df)) (Some (PStr (strftime_HMS (datetime_now w))))
       \<and> df_column df ''extracted_region''
           = concat (map (\<lambda>(region, items). replicate (length items) (Some region))
                       (scraped w 0 None regions))
       \<and> map fst (scraped w 0 None regions) = regions"
proof -
  let ?sc = "scraped w 0 None regions"
  let ?records = "concat (map (\<lambda>(region, items). map (normalized w region) items) ?sc)"
  have tagged: "\<exists>info. normalized w region p = tag_product w region info"
    if "(region, items) \<in> set ?sc" and "p \<in> set items" for region items p
  proof -
    from run_table(5) [OF assms] that obtain info where "get_product_info w p = Inr info"
      by blast
    then show ?thesis by (auto simp: normalized_Inr)
  qed
  have len: "length (df_rows df) = length ?records"
    by (simp add: run_table(1) [OF assms])
  have "\<forall>(region, items) \<in> set ?sc. \<forall>p \<in> set items.
          map_of (normalized w region p) ''extracted_datetime''
            = Some (PDatetime (datetime_now w))"
    using tagged by (fastforce simp: tag_product_lookups)
  from constant_column [OF this] have 1: "df_column df ''extracted_datetime''
           = replicate (length (df_rows df)) (Some (PDatetime (datetime_now w)))"
    by (simp only: run_column [OF assms] len)
  have "\<forall>(region, items) \<in> set ?sc. \<forall>p \<in> set items.
          map_of (normalized w region p) ''extracted_date''
            = Some (PStr (strftime_Ymd (datetime_now w)))"
    using tagged by (fastforce simp: tag_product_lookups)
  from constant_column [OF this] have 2: "df_column df ''extracted_date''
           = replicate (length (df_rows df)) (Some (PStr (strftime_Ymd (datetime_now w))))"
    by (simp only: run_column [OF assms] len)
  have "\<forall>(region, items) \<in> set ?sc. \<forall>p \<in> set items.
          map_of (normalized w region p) ''extracted_time''
            = Some (PStr (strftime_HMS (datetime_now w)))"
    using tagged by (fastforce simp: tag_product_lookups)
  from constant_column [OF this] have 3: "df_column df ''extracted_time''
           = replicate (length (df_rows df)) (Some (PStr (strftime_HMS (datetime_now w))))"
    by (simp only: run_column [OF assms] len)
  have "\<forall>(region, items) \<in> set ?sc. \<forall>p \<in> set items.
          map_of (normalized w region p) ''extracted_region'' = Some region"
    using tagged by (fastforce simp: tag_product_lookups)
  from column_by_region [OF this] have 4: "df_column df ''extracted_region''
           = concat (map (\<lambda>(region, items). replicate (length items) (Some region)) ?sc)"
    by (simp only: run_column [OF assms])
  from 1 2 3 4 run_table(6) [OF assms] show ?thesis by (intro conjI)
qed

theorem rows_carry_run_timestamp_and_region_witness:
  "webscraping_ara world_catalog_then_empty [PNone, PStr ''norte''] = Inr sample_table
   \<and> df_column sample_table ''extracted_datetime''
       = [Some (PDatetime sample_now), Some (PDatetime sample_now)]
   \<and> df_column sample_table ''extracted_date'' = [Some (PStr ''20240309''), Some (PStr ''20240309'')]
   \<and> df_column sample_table ''extracted_time'' = [Some (PStr ''07:05:30''), Some (PStr ''07:05:30'')]
   \<and> df_column sample_table ''extracted_region'' = [Some PNone, Some PNone]"
proof -
  have now: "datetime_now world_catalog_then_empty = sample_now"
    by (simp add: world_catalog_then_empty_def sample_world_def)
  have date: "strftime_Ymd sample_now = ''20240309''" by code_simp
  have time: "strftime_HMS sample_now = ''07:05:30''" by code_simp
  have rows: "length (df_rows sample_table) = 2" by (simp add: sample_table_def)
  have two: "replicate 2 x = [x, x]" for x :: "pyval option"
    by (simp add: numeral_2_eq_2)
  from rows_carry_run_timestamp_and_region [OF sample_run] sample_run show ?thesis
    unfolding sample_scraped by (simp add: now date time rows two)
qed

section \<open>The columns (C9)\<close>

lemma tag_product_keys:
  assumes "set (map fst product_info) \<inter>
           {''extracted_region'', ''extracted_datetime'', ''extracted_date'', ''extracted_time''}
           = {}"
  shows "map fst (tag_product w region product_info)
         = map fst product_info
           @ [''extracted_region'', ''extracted_datetime'', ''extracted_date'', ''extracted_time'']"
  using assms by (simp add: tag_product_def keys_dict_set)

text \<open>
  The keys of a product's record in the table: all the field names when its meta is
  truthy, and in any case no other name.
\<close>

lemma normalized_keys:
  assumes "get_product_info w p = Inr info"
  shows "set (map fst (normalized w region p)) \<subseteq> set field_names"
    and "dict_get p ''meta'' = Inr meta \<Longrightarrow> truthy meta \<Longrightarrow>
         map fst (normalized w region p) = field_names"
proof -
  from get_product_info_keys [OF assms] obtain kvs where
    p: "p = PDict kvs"
    and keys: "map fst info =
       (if truthy (scraped_get kvs ''meta'')
        then [''id'', ''image_url'', ''post_type'', ''post_date'', ''post_modified'',
        ''post_status'', ''post_name'', ''product_name'', ''post_title'',
        ''comunicacion_type'', ''product_description'', ''sale_price'', ''price'',
        ''price_type'', ''brand'', ''outstanding'', ''sap_ean_code'', ''region'', ''measure'',
        ''product_url'', ''category'']
        else [''id'', ''image_url'', ''post_type'', ''post_date'', ''post_modified'',
        ''post_status'', ''post_name'', ''product_name'', ''post_title'',
        ''product_url'', ''category''])"
    by blast
  have n: "normalized w region p = tag_product w region info"
    using assms by (rule normalized_Inr)
  have "set (map fst info) \<inter>
           {''extracted_region'', ''extracted_datetime'', ''extracted_date'', ''extracted_time''}
           = {}"
    unfolding keys by simp
  from tag_product_keys [OF this] have t: "map fst (tag_product w region info)
         = map fst info
           @ [''extracted_region'', ''extracted_datetime'', ''extracted_date'', ''extracted_time'']"
    .
  show "set (map fst (normalized w region p)) \<subseteq> set field_names"
    unfolding n t keys by (simp add: field_names_def)
  show "map fst (normalized w region p) = field_names"
    if "dict_get p ''meta'' = Inr meta" and "truthy meta"
  proof -
    from that have "truthy (scraped_get kvs ''meta'')"
      by (simp add: p dict_get_PDict del: dict_get.simps)
    then show ?thesis unfolding n t keys by (simp add: field_names_def)
  qed
qed

lemma field_names_distinct: "distinct field_names \<and> length field_names = 25"
  by (simp add: field_names_def)

text \<open>
  C9 says that the table has 24 columns, each holding scalars. The field list has 25
  names, and so has the table of the sample run, in which a product with meta is
  scraped; the cells of its category column are tuples.
\<close>

theorem sample_table_has_25_columns:
  "webscraping_ara world_catalog_then_empty [PNone, PStr ''norte''] = Inr sample_table
   \<and> df_columns sample_table = field_names
   \<and> length (df_columns sample_table) = 25
   \<and> df_column sample_table ''category''
       = [Some (PTuple [PStr ''lacteos'']), Some (PTuple [PStr ''despensa''])]"
proof -
  have "df_column sample_table ''category''
          = [Some (PTuple [PStr ''lacteos'']), Some (PTuple [PStr ''despensa''])]"
    by code_simp
  then show ?thesis
    using sample_run field_names_distinct by (simp add: sample_table_def)
qed

text \<open>
  C9 as amended: in every run that returns and in which at least one scraped product
  has a truthy meta (a non-empty map), the table has exactly the 25 columns of the
  field list, \<open>id\<close> through \<open>extracted_time\<close>, each once.
\<close>

theorem table_has_the_field_columns:
  assumes "webscraping_ara w regions = Inr df"
    and "(region, items) \<in> set (scraped w 0 None regions)"
    and "p \<in> set items"
    and "dict_get p ''meta'' = Inr meta"
    and "truthy meta"
  shows "set (df_columns df) = set field_names
       \<and> distinct (df_columns df)
       \<and> length (df_columns df) = 25"
proof -
  let ?sc = "scraped w 0 None regions"
  let ?records = "concat (map (\<lambda>(region, items). map (normalized w region) items) ?sc)"
  have cols: "set (df_columns df) = (\<Union>d \<in> set ?records. set (map fst d))"
    by (rule run_table(3) [OF assms(1)])
  have sub: "set (map fst d) \<subseteq> set field_names" if "d \<in> set ?records" for d
  proof -
    from that obtain r its q where "(r, its) \<in> set ?sc" "q \<in> set its"
      and d: "d = normalized w r q"
      by auto
    with run_table(5) [OF assms(1)] obtain info where "get_product_info w q = Inr info"
      by blast
    from normalized_keys(1) [OF this] show ?thesis by (simp only: d)
  qed
  from run_table(5) [OF assms(1)] assms(2,3) obtain info where
    "get_product_info w p = Inr info" by blast
  from normalized_keys(2) [OF this assms(4,5)] have
    full: "map fst (normalized w region p) = field_names" .
  have "normalized w region p \<in> set ?records"
    using assms(2,3) by force
  with full have "set field_names \<subseteq> (\<Union>d \<in> set ?records. set (map fst d))"
    by (metis UN_upper)
  with sub have eq: "set (df_columns df) = set field_names"
    unfolding cols by blast
  have dist: "distinct (df_columns df)"
    by (rule run_table(4) [OF assms(1)])
  have "length (df_columns df) = card (set (df_columns df))"
    using dist by (simp add: distinct_card)
  also have "\<dots> = length field_names"
    using field_names_distinct by (simp add: eq distinct_card)
  finally show ?thesis using eq dist field_names_distinct by simp
qed

theorem table_has_the_field_columns_witness:
  "(PNone, [leche, arroz]) \<in> set (scraped world_catalog_then_empty 0 None [PNone, PStr ''norte''])
   \<and> dict_get leche ''meta'' = Inr (PDict [(''marca'', PList [PStr ''AcmeCo''])])
   \<and> set (df_columns sample_table) = set field_names
   \<and> distinct (df_columns sample_table)
   \<and> length (df_columns sample_table) = 25"
proof -
  have s: "(PNone, [leche, arroz])
             \<in> set (scraped world_catalog_then_empty 0 None [PNone, PStr ''norte''])"
    unfolding sample_scraped by simp
  have p: "leche \<in> set [leche, arroz]" by simp
  have m: "dict_get leche ''meta'' = Inr (PDict [(''marca'', PList [PStr ''AcmeCo''])])"
    by (simp add: leche_def)
  have t: "truthy (PDict [(''marca'', PList [PStr ''AcmeCo''])])" by simp
  from table_has_the_field_columns [OF sample_run s p m t] s m show ?thesis
    by blast
qed


end
